theory Spec2Isabelle
  imports Complex_Main "HOL-Library.AList"
begin

section \<open>The CORD-19 explorer: tiered loading of the metadata table\<close>

text \<open>
  The program is one Streamlit script, \<^verbatim>\<open>app.py\<close>. It reads a CSV file with pandas,
  either a sample of its head (\<^verbatim>\<open>load_sample_data\<close>) or the whole file in chunks of
  50000 rows with a limit of 500000 rows, then coerces the \<^verbatim>\<open>publish_time\<close> column, derives a
  \<^verbatim>\<open>year\<close> column and filters on it.

  The script's own code is embedded function by function. pandas and Streamlit are
  libraries the script calls: the part of their behaviour the script relies on is
  modelled in the subsections named after them.
\<close>

subsection \<open>Exceptions\<close>

text \<open>
  The exceptions of a run. \<^verbatim>\<open>st.stop()\<close> raises Streamlit's \<open>StopException\<close>, which derives
  from \<^verbatim>\<open>BaseException\<close> and not from \<^verbatim>\<open>Exception\<close>: an \<^verbatim>\<open>except Exception\<close> clause does
  not catch it. All the others derive from \<^verbatim>\<open>Exception\<close>. \<open>OSError\<close> stands for what
  opening a path raises when no readable file is there (\<^verbatim>\<open>FileNotFoundError\<close>,
  \<^verbatim>\<open>IsADirectoryError\<close> and \<^verbatim>\<open>PermissionError\<close> are \<^verbatim>\<open>OSError\<close>s).
\<close>

datatype exn = OSError | ParserError | NameError | KeyError | StopException

definition is_Exception :: "exn \<Rightarrow> bool" where
  "is_Exception e = (e \<noteq> StopException)"

subsection \<open>pandas: cells, frames and CSV files\<close>

datatype cell = Str string | Num int | Stamp int nat nat | NA

text \<open>
  A \<^verbatim>\<open>DataFrame\<close>, column by column: \<open>nrows\<close> is the length of its index (\<^verbatim>\<open>len(df)\<close>),
  \<open>cols\<close> its columns in order, each with its values.
\<close>

record dataframe =
  nrows :: nat
  cols :: "(string \<times> cell list) list"

definition columns :: "dataframe \<Rightarrow> string list" where
  "columns d = map fst (cols d)"

text \<open>
  A CSV file is its header and its data lines, each line the list of its fields. A
  file system maps a path to the readable file there, if any.
\<close>

record csv =
  header :: "string list"
  lines :: "cell list list"

type_synonym fs = "string \<Rightarrow> csv option"

text \<open>
  The parser fixes the number of fields of a line by the first data line: it is the
  number of names in the header, or the number of fields of the first data line when
  that is larger, and then the extra leading fields of every line are the index of
  the frame and not a column. A line with fewer fields is padded with \<^verbatim>\<open>NaN\<close>; a later
  line with more fields raises \<^verbatim>\<open>ParserError\<close>.
\<close>

record table =
  names :: "string list"
  width :: nat

definition table_of :: "csv \<Rightarrow> table" where
  "table_of f =
     \<lparr>names = header f,
      width = (case lines f of
                 [] \<Rightarrow> length (header f)
               | l # _ \<Rightarrow> max (length (header f)) (length l))\<rparr>"

definition well_formed :: "table \<Rightarrow> cell list \<Rightarrow> bool" where
  "well_formed t l = (length l \<le> width t)"

definition field :: "cell list \<Rightarrow> nat \<Rightarrow> cell" where
  "field l i = (if i < length l then l ! i else NA)"

definition frame_of :: "table \<Rightarrow> cell list list \<Rightarrow> dataframe" where
  "frame_of t ls =
     \<lparr>nrows = length ls,
      cols = map (\<lambda>i. (names t ! i,
                        map (\<lambda>l. field l (i + (width t - length (names t)))) ls))
                 [0..<length (names t)]\<rparr>"

definition parse_lines :: "table \<Rightarrow> cell list list \<Rightarrow> exn + dataframe" where
  "parse_lines t ls =
     (if list_all (well_formed t) ls then Inr (frame_of t ls) else Inl ParserError)"

text \<open>\<^verbatim>\<open>pd.read_csv(path, nrows=n)\<close>: the first \<open>n\<close> data lines of the file.\<close>

definition read_csv_nrows :: "fs \<Rightarrow> string \<Rightarrow> nat \<Rightarrow> exn + dataframe" where
  "read_csv_nrows files path n =
     (case files path of
        None \<Rightarrow> Inl OSError
      | Some f \<Rightarrow> parse_lines (table_of f) (take n (lines f)))"

text \<open>
  \<^verbatim>\<open>pd.read_csv(path, chunksize=n)\<close> opens the file and returns an iterator. Each step
  of the iterator parses the next \<open>n\<close> lines and yields them as a frame, or raises; the
  iterator is the list of these outcomes, read from the left as far as the loop goes.
  It ends when no line is left. On a file with a header and no data line the first
  step yields a frame with no rows. The script's chunk size is 50000; pandas refuses a
  chunk size of 0, for which \<open>chunk_reader\<close> is the empty list.
\<close>

function chunk_reader :: "table \<Rightarrow> nat \<Rightarrow> cell list list \<Rightarrow> (exn + dataframe) list" where
  "chunk_reader hdr n ls =
     (if n = 0 \<or> ls = [] then []
      else if list_all (well_formed hdr) (take n ls)
        then Inr (frame_of hdr (take n ls)) # chunk_reader hdr n (drop n ls)
        else [Inl ParserError])"
  by pat_completeness auto
termination
  by (relation "measure (\<lambda>(hdr, n, ls). length ls)") auto

declare chunk_reader.simps [simp del]

definition read_csv_chunks :: "fs \<Rightarrow> string \<Rightarrow> nat \<Rightarrow> exn + (exn + dataframe) list" where
  "read_csv_chunks files path n =
     (case files path of
        None \<Rightarrow> Inl OSError
      | Some f \<Rightarrow>
          Inr (if lines f = [] then [Inr (frame_of (table_of f) [])]
               else chunk_reader (table_of f) n (lines f)))"

text \<open>
  \<^verbatim>\<open>pd.concat(chunks, ignore_index=True)\<close> on frames that share their columns, as the
  chunks of one reader do: the columns of the first frame, each the concatenation of
  that column over the frames.
\<close>

definition column_or_NA :: "dataframe \<Rightarrow> string \<Rightarrow> cell list" where
  "column_or_NA d c =
     (case map_of (cols d) c of None \<Rightarrow> replicate (nrows d) NA | Some vs \<Rightarrow> vs)"

definition concat_frames :: "dataframe list \<Rightarrow> dataframe" where
  "concat_frames ds =
     \<lparr>nrows = sum_list (map nrows ds),
      cols = (case ds of
                [] \<Rightarrow> []
              | d # _ \<Rightarrow> map (\<lambda>c. (c, concat (map (\<lambda>d'. column_or_NA d' c) ds))) (columns d))\<rparr>"

subsection \<open>Streamlit: what a run shows\<close>

datatype message =
    Error_loading_dataset exn
  | Error_loading_full_dataset exn
  | Falling_back_to_sample_data
  | Limited_to_500000_rows
  | No_data_loaded
  | Failed_to_load_dataset
  | Publish_time_not_found
  | No_year_data

text \<open>
  The calls of a run that show something, in order: \<^verbatim>\<open>st.error\<close>, \<^verbatim>\<open>st.warning\<close>,
  \<^verbatim>\<open>st.info\<close>, a value given to the progress bar, the status line
  (\<^verbatim>\<open>Loaded n rows...\<close>), and the two \<^verbatim>\<open>empty()\<close> calls that clear them.
\<close>

datatype event =
    StError message
  | StWarning message
  | StInfo message
  | Progress real
  | StatusText nat
  | ProgressCleared
  | StatusCleared

fun progress_values :: "event list \<Rightarrow> real list" where
  "progress_values [] = []"
| "progress_values (Progress p # es) = p # progress_values es"
| "progress_values (_ # es) = progress_values es"

subsection \<open>\<^verbatim>\<open>load_sample_data\<close>\<close>

text \<open>
  \<^verbatim>\<open>
  def load_sample_data(nrows=10000):
      try:
          pd.read_csv("metadata.csv", nrows=nrows, low_memory=False)
          return df
      except Exception as e:
          st.error(f"Error loading dataset: {e}")
          return None
  \<close>
  The frame that \<^verbatim>\<open>read_csv\<close> returns is not bound to a name. \<^verbatim>\<open>df\<close> is not a local
  of the function, so \<^verbatim>\<open>return df\<close> reads the module's global \<^verbatim>\<open>df\<close>: \<open>gdf\<close> is its
  binding at the time of the call, \<open>None\<close> when the name is unbound, and reading an
  unbound name raises \<^verbatim>\<open>NameError\<close>. The result is what the function returns
  (\<open>Inr None\<close> is Python's \<^verbatim>\<open>None\<close>) or the exception that leaves it, and what it shows.
\<close>

definition load_sample_data ::
  "fs \<Rightarrow> dataframe option \<Rightarrow> nat \<Rightarrow> (exn + dataframe option) \<times> event list" where
  "load_sample_data files gdf n =
     (let body =
        (case read_csv_nrows files ''metadata.csv'' n of
           Inl e \<Rightarrow> Inl e
         | Inr _ \<Rightarrow> (case gdf of None \<Rightarrow> Inl NameError | Some d \<Rightarrow> Inr d))
      in case body of
           Inr d \<Rightarrow> (Inr (Some d), [])
         | Inl e \<Rightarrow>
             if is_Exception e then (Inr None, [StError (Error_loading_dataset e)])
             else (Inl e, []))"

text \<open>
  \<^verbatim>\<open>@st.cache_data\<close>: the cache of the session maps the argument of an earlier call to
  what that call returned and showed. A call whose argument is in the cache returns
  the stored value and shows the stored elements again, without running the body; any
  other call runs the body and stores its outcome, unless the body raised.
\<close>

type_synonym cache = "nat \<rightharpoonup> (dataframe option \<times> event list)"

definition load_sample_data_cached ::
  "cache \<Rightarrow> fs \<Rightarrow> dataframe option \<Rightarrow> nat \<Rightarrow> ((exn + dataframe option) \<times> event list) \<times> cache" where
  "load_sample_data_cached c files gdf n =
     (case c n of
        Some (v, evs) \<Rightarrow> ((Inr v, evs), c)
      | None \<Rightarrow>
          (case load_sample_data files gdf n of
             (Inr v, evs) \<Rightarrow> ((Inr v, evs), c(n \<mapsto> (v, evs)))
           | (Inl e, evs) \<Rightarrow> ((Inl e, evs), c)))"

subsection \<open>The full load: the chunk loop\<close>

text \<open>
  \<^verbatim>\<open>
  for chunk in pd.read_csv("metadata.csv/metadata.csv", chunksize=chunk_size, ...):
      chunks.append(chunk)
      total_rows += len(chunk)
      progress_bar.progress(min(total_rows / 1000000, 1.0))
      status_text.text(f"Loaded {total_rows:,} rows...")
      if total_rows >= 500000:
          st.warning("Limited to 500,000 rows to prevent memory issues")
          break
  \<close>
  The state of the loop is the list \<^verbatim>\<open>chunks\<close>, the counter \<^verbatim>\<open>total_rows\<close> and what
  has been shown so far. The loop ends when the iterator is exhausted, at the
  \<^verbatim>\<open>break\<close>, or with the exception a step of the iterator raises.
\<close>

definition progress_fraction :: "nat \<Rightarrow> real" where
  "progress_fraction n = min (real n / 1000000) 1"

record loader =
  chunks :: "dataframe list"
  total_rows :: nat
  shown :: "event list"

fun full_loop :: "(exn + dataframe) list \<Rightarrow> loader \<Rightarrow> exn option \<times> loader" where
  "full_loop [] s = (None, s)"
| "full_loop (Inl e # it) s = (Some e, s)"
| "full_loop (Inr chunk # it) s =
     (let s1 = s\<lparr>chunks := chunks s @ [chunk], total_rows := total_rows s + nrows chunk\<rparr>;
          s2 = s1\<lparr>shown := shown s1 @
                 [Progress (progress_fraction (total_rows s1)),
                  StatusText (total_rows s1)]\<rparr>
      in if total_rows s2 \<ge> 500000
         then (None, s2\<lparr>shown := shown s2 @ [StWarning Limited_to_500000_rows]\<rparr>)
         else full_loop it s2)"

text \<open>
  The body of the \<^verbatim>\<open>try\<close> of the full load, lines 59 to 85, on the outcome \<open>opened\<close> of
  the \<^verbatim>\<open>read_csv\<close> call: \<^verbatim>\<open>st.progress(0)\<close> comes first (the state \<open>start\<close>), then the
  call, then the loop;
  after the loop the chunks are concatenated, or, when there is none,
  \<^verbatim>\<open>st.error("No data loaded")\<close> and \<^verbatim>\<open>st.stop()\<close>.
\<close>

definition start :: loader where
  "start = \<lparr>chunks = [], total_rows = 0, shown = [Progress 0]\<rparr>"

definition full_try :: "exn + (exn + dataframe) list \<Rightarrow> (exn + dataframe) \<times> event list" where
  "full_try opened =
     (case opened of
        Inl e \<Rightarrow> (Inl e, shown start)
      | Inr it \<Rightarrow>
          (case full_loop it start of
             (Some e, s) \<Rightarrow> (Inl e, shown s)
           | (None, s) \<Rightarrow>
               if chunks s \<noteq> []
               then (Inr (concat_frames (chunks s)),
                     shown s @ [ProgressCleared, StatusCleared])
               else (Inl StopException, shown s @ [StError No_data_loaded])))"

text \<open>
  The \<^verbatim>\<open>try\<close> with its handler, lines 58 to 90: an \<^verbatim>\<open>Exception\<close> of the body is shown,
  and \<^verbatim>\<open>df = load_sample_data(10000)\<close> follows. The global \<^verbatim>\<open>df\<close> is unbound at that
  call: the body assigns it at line 80 only, and nothing after that line raises.
\<close>

definition full_dataset ::
  "exn + (exn + dataframe) list \<Rightarrow> cache \<Rightarrow> fs \<Rightarrow>
     ((exn + dataframe option) \<times> event list) \<times> cache" where
  "full_dataset opened c files =
     (case full_try opened of
        (Inr d, evs) \<Rightarrow> ((Inr (Some d), evs), c)
      | (Inl e, evs) \<Rightarrow>
          if is_Exception e
          then (case load_sample_data_cached c files None 10000 of
                  ((r, evs'), c') \<Rightarrow>
                    ((r, evs @ [StError (Error_loading_full_dataset e),
                                StInfo Falling_back_to_sample_data] @ evs'), c'))
          else ((Inl e, evs), c))"

subsection \<open>The dispatch on the loading mode\<close>

datatype load_mode = Sample_10K | Sample_50K | Full_dataset

text \<open>
  Lines 51 to 94: the three branches, then \<^verbatim>\<open>if df is None\<close>, which shows
  \<^verbatim>\<open>Failed to load dataset\<close> and stops the script. The outcome is the frame bound to
  \<^verbatim>\<open>df\<close> when the script goes on, or the exception that ends the run:
  \<open>StopException\<close> for \<^verbatim>\<open>st.stop()\<close>, any other one for an exception nothing caught.
  Streamlit runs the script from the top in a fresh module, and \<^verbatim>\<open>df\<close> is assigned
  nowhere before line 53: at the two calls of \<^verbatim>\<open>load_sample_data\<close> here the global is
  unbound.
\<close>

definition select_load ::
  "cache \<Rightarrow> fs \<Rightarrow> load_mode \<Rightarrow> ((exn + dataframe option) \<times> event list) \<times> cache" where
  "select_load c files m =
     (case m of
        Sample_10K \<Rightarrow> load_sample_data_cached c files None 10000
      | Sample_50K \<Rightarrow> load_sample_data_cached c files None 50000
      | Full_dataset \<Rightarrow>
          full_dataset (read_csv_chunks files ''metadata.csv/metadata.csv'' 50000) c files)"

definition check_loaded :: "(exn + dataframe option) \<times> event list \<Rightarrow> (exn + dataframe) \<times> event list" where
  "check_loaded r =
     (case r of
        (Inl e, evs) \<Rightarrow> (Inl e, evs)
      | (Inr None, evs) \<Rightarrow> (Inl StopException, evs @ [StError Failed_to_load_dataset])
      | (Inr (Some d), evs) \<Rightarrow> (Inr d, evs))"

definition load_dataset ::
  "cache \<Rightarrow> fs \<Rightarrow> load_mode \<Rightarrow> ((exn + dataframe) \<times> event list) \<times> cache" where
  "load_dataset c files m =
     (case select_load c files m of (r, c') \<Rightarrow> (check_loaded r, c'))"

text \<open>
  The cache of a session holds only what \<^verbatim>\<open>load_sample_data\<close> returned to an earlier
  call of the script, and the script calls it only where \<^verbatim>\<open>df\<close> is unbound.
\<close>

definition cache_ok :: "cache \<Rightarrow> bool" where
  "cache_ok c =
     (\<forall>n v evs. c n = Some (v, evs) \<longrightarrow>
        (\<exists>files. load_sample_data files None n = (Inr v, evs)))"

subsection \<open>pandas: columns, coercion to dates, selection of rows\<close>

text \<open>
  \<^verbatim>\<open>df[c]\<close> raises \<^verbatim>\<open>KeyError\<close> when \<open>c\<close> is not a column. \<^verbatim>\<open>df[c] = values\<close> replaces
  the column \<open>c\<close> of the frame where it stands, or adds it as the last column; it
  changes the frame itself. A scalar on the right is repeated for every row. The
  script assigns only columns that have the length of the frame.
\<close>

definition get_column :: "dataframe \<Rightarrow> string \<Rightarrow> exn + cell list" where
  "get_column d c = (case map_of (cols d) c of None \<Rightarrow> Inl KeyError | Some vs \<Rightarrow> Inr vs)"

definition set_column :: "dataframe \<Rightarrow> string \<Rightarrow> cell list \<Rightarrow> dataframe" where
  "set_column d c vs = d\<lparr>cols := AList.update c vs (cols d)\<rparr>"

definition set_column_scalar :: "dataframe \<Rightarrow> string \<Rightarrow> cell \<Rightarrow> dataframe" where
  "set_column_scalar d c v = set_column d c (replicate (nrows d) v)"

text \<open>
  \<^verbatim>\<open>pd.to_datetime(column, errors="coerce")\<close>, value by value: \<open>parse\<close> is pandas's
  reading of a value as a date (year, month, day); a value it cannot read becomes
  \<^verbatim>\<open>NaT\<close>, which is \<open>NA\<close> here. \<^verbatim>\<open>.dt.year\<close> is the year of a date.
\<close>

definition to_datetime :: "(cell \<Rightarrow> (int \<times> nat \<times> nat) option) \<Rightarrow> cell \<Rightarrow> cell" where
  "to_datetime parse v =
     (case v of
        NA \<Rightarrow> NA
      | Stamp y m d \<Rightarrow> Stamp y m d
      | _ \<Rightarrow> (case parse v of Some (y, m, d) \<Rightarrow> Stamp y m d | None \<Rightarrow> NA))"

definition dt_year :: "cell \<Rightarrow> cell" where
  "dt_year v = (case v of Stamp y m d \<Rightarrow> Num y | _ \<Rightarrow> NA)"

definition isna :: "cell \<Rightarrow> bool" where
  "isna v = (v = NA)"

text \<open>\<^verbatim>\<open>df[mask]\<close>: a new frame with the rows of \<open>d\<close> where the mask holds.\<close>

definition pick :: "cell list \<Rightarrow> bool list \<Rightarrow> cell list" where
  "pick vs keep = map fst (filter snd (zip vs keep))"

definition select_rows :: "dataframe \<Rightarrow> bool list \<Rightarrow> dataframe" where
  "select_rows d keep =
     \<lparr>nrows = length (filter id keep),
      cols = map (\<lambda>(c, vs). (c, pick vs keep)) (cols d)\<rparr>"

text \<open>\<^verbatim>\<open>df.dropna(subset=[c])\<close>: a new frame without the rows whose \<open>c\<close> is missing.\<close>

definition dropna :: "dataframe \<Rightarrow> string \<Rightarrow> exn + dataframe" where
  "dropna d c =
     (case get_column d c of
        Inl e \<Rightarrow> Inl e
      | Inr vs \<Rightarrow> Inr (select_rows d (map (\<lambda>v. \<not> isna v) vs)))"

text \<open>A comparison of a cell with a number; it is false on a missing value.\<close>

definition cell_ge :: "cell \<Rightarrow> int \<Rightarrow> bool" where
  "cell_ge v k = (case v of Num n \<Rightarrow> n \<ge> k | _ \<Rightarrow> False)"

definition cell_le :: "cell \<Rightarrow> int \<Rightarrow> bool" where
  "cell_le v k = (case v of Num n \<Rightarrow> n \<le> k | _ \<Rightarrow> False)"

subsection \<open>The preparation of the data and the filter on the year\<close>

text \<open>
  Frames are objects: the script's names \<^verbatim>\<open>df\<close> and \<^verbatim>\<open>filtered\<close> hold references, and
  an assignment to a column changes the object a name refers to. The store is the
  list of the frames that exist, a reference is a position in it, and a new frame
  goes to the end. A name always refers to a frame of the store.

  \<^verbatim>\<open>
  if "publish_time" in df.columns:
      df["publish_time"] = pd.to_datetime(df["publish_time"], errors="coerce")
      df = df.dropna(subset=["publish_time"])
      df["year"] = df["publish_time"].dt.year
  else:
      st.warning("'publish_time' column not found. Using available data.")
      df["year"] = 2020
  \<close>
  The result is the store, the frame \<^verbatim>\<open>df\<close> refers to afterwards, and what was shown.
\<close>

type_synonym store = "dataframe list"

definition prepare ::
  "(cell \<Rightarrow> (int \<times> nat \<times> nat) option) \<Rightarrow> store \<Rightarrow> nat \<Rightarrow> exn + (store \<times> nat \<times> event list)" where
  "prepare parse h df =
     (if ''publish_time'' \<in> set (columns (h ! df)) then
        (case get_column (h ! df) ''publish_time'' of
           Inl e \<Rightarrow> Inl e
         | Inr vs \<Rightarrow>
             (let h1 = h[df := set_column (h ! df) ''publish_time'' (map (to_datetime parse) vs)]
              in case dropna (h1 ! df) ''publish_time'' of
                   Inl e \<Rightarrow> Inl e
                 | Inr dropped \<Rightarrow>
                     (let h2 = h1 @ [dropped]; df' = length h1
                      in case get_column (h2 ! df') ''publish_time'' of
                           Inl e \<Rightarrow> Inl e
                         | Inr ts \<Rightarrow>
                             Inr (h2[df' := set_column (h2 ! df') ''year'' (map dt_year ts)],
                                  df', []))))
      else
        Inr (h[df := set_column_scalar (h ! df) ''year'' (Num 2020)], df,
             [StWarning Publish_time_not_found]))"

text \<open>
  \<^verbatim>\<open>
  if "year" in df.columns and not df["year"].isna().all():
      ...
      year_range = st.slider("Select year range:", min_year, max_year, (2020, 2021))
      filtered = df[(df["year"] >= year_range[0]) & (df["year"] <= year_range[1])]
  else:
      filtered = df
      st.info("No year data available for filtering")
  \<close>
  \<open>year_range\<close> is the range the slider returns; the slider's own check of its
  bounds and default is not part of the model. The result is the store, the frame
  \<^verbatim>\<open>filtered\<close> refers to, and what was shown.
\<close>

definition filter_years ::
  "store \<Rightarrow> nat \<Rightarrow> int \<times> int \<Rightarrow> exn + (store \<times> nat \<times> event list)" where
  "filter_years h df year_range =
     (if ''year'' \<in> set (columns (h ! df)) then
        (case get_column (h ! df) ''year'' of
           Inl e \<Rightarrow> Inl e
         | Inr ys \<Rightarrow>
             if \<not> list_all isna ys
             then Inr (h @ [select_rows (h ! df)
                             (map (\<lambda>y. cell_ge y (fst year_range) \<and> cell_le y (snd year_range)) ys)],
                       length h, [])
             else Inr (h, df, [StInfo No_year_data]))
      else Inr (h, df, [StInfo No_year_data]))"

subsection \<open>Example files\<close>

definition rows_file :: "nat \<Rightarrow> csv" where
  "rows_file n = \<lparr>header = [''title''], lines = replicate n [Str ''x'']\<rparr>"

definition too_many_fields :: csv where
  "too_many_fields = \<lparr>header = [''title''], lines = [[Str ''x''], [Str ''x'', Str ''y'']]\<rparr>"

definition leading_field :: csv where
  "leading_field = \<lparr>header = [''title''], lines = [[Str ''x'', Str ''y'']]\<rparr>"

definition header_only :: csv where
  "header_only = \<lparr>header = [''title'', ''journal''], lines = []\<rparr>"

definition full_path_only :: "csv \<Rightarrow> fs" where
  "full_path_only f = (\<lambda>p. if p = ''metadata.csv/metadata.csv'' then Some f else None)"

definition sample_path_only :: "csv \<Rightarrow> fs" where
  "sample_path_only f = (\<lambda>p. if p = ''metadata.csv'' then Some f else None)"

definition read_march_2020 :: "cell \<Rightarrow> (int \<times> nat \<times> nat) option" where
  "read_march_2020 v = (if v = Str ''2020-03-01'' then Some (2020, 3, 1) else None)"

definition dated_frame :: dataframe where
  "dated_frame =
     \<lparr>nrows = 2,
      cols = [(''title'', [Str ''a'', Str ''b'']),
              (''publish_time'', [Str ''2020-03-01'', Str ''unknown''])]\<rparr>"

definition undated_frame :: dataframe where
  "undated_frame = \<lparr>nrows = 2, cols = [(''title'', [Str ''a'', Str ''b''])]\<rparr>"

subsection \<open>Invariants of the chunk loop\<close>

text \<open>
  The progress values shown so far are in non-decreasing order and none is above the
  value for the current count of rows.
\<close>

definition below :: "loader \<Rightarrow> bool" where
  "below s =
     (sorted (progress_values (shown s)) \<and>
      (\<forall>p \<in> set (progress_values (shown s)). p \<le> progress_fraction (total_rows s)))"

definition limited :: "event list \<Rightarrow> bool" where
  "limited evs = (StWarning Limited_to_500000_rows \<in> set evs)"

text \<open>
  What the loop has done when it leaves state \<open>s'\<close>, started in state \<open>s\<close> on a reader
  with \<open>k\<close> well-formed lines left.
\<close>

definition ran :: "loader \<Rightarrow> nat \<Rightarrow> loader \<Rightarrow> bool" where
  "ran s k s' =
     (total_rows s' = min (total_rows s + k) 500000 \<and>
      (limited (shown s') \<longleftrightarrow> limited (shown s) \<or> total_rows s + k \<ge> 500000) \<and>
      (0 < k \<longrightarrow> chunks s' \<noteq> [] \<and> progress_values (shown s') \<noteq> [] \<and>
         last (progress_values (shown s')) = progress_fraction (total_rows s')))"

section \<open>Properties\<close>

subsection \<open>\<^verbatim>\<open>load_sample_data\<close> where \<^verbatim>\<open>df\<close> is unbound\<close>

lemma read_csv_nrows_raises:
  "read_csv_nrows files path n = Inl e \<Longrightarrow> e = OSError \<or> e = ParserError"
  by (auto simp: read_csv_nrows_def parse_lines_def split: option.splits if_splits)

lemma load_sample_data_unbound:
  "\<exists>e. load_sample_data files None n = (Inr None, [StError (Error_loading_dataset e)])"
proof (cases "read_csv_nrows files ''metadata.csv'' n")
  case (Inl e)
  then have "is_Exception e"
    using read_csv_nrows_raises[OF Inl] by (auto simp: is_Exception_def)
  with Inl show ?thesis by (simp add: load_sample_data_def)
next
  case (Inr d)
  then show ?thesis by (simp add: load_sample_data_def is_Exception_def)
qed

lemma cache_ok_empty: "cache_ok Map.empty"
  by (simp add: cache_ok_def)

lemma cache_ok_entry:
  assumes "cache_ok c" and "c n = Some (v, evs)"
  shows "v = None \<and> (\<exists>e. evs = [StError (Error_loading_dataset e)])"
proof -
  from assms obtain files where f: "load_sample_data files None n = (Inr v, evs)"
    unfolding cache_ok_def by blast
  obtain e where "load_sample_data files None n = (Inr None, [StError (Error_loading_dataset e)])"
    using load_sample_data_unbound by blast
  with f show ?thesis by auto
qed

lemma cache_ok_update:
  assumes "cache_ok c" and "load_sample_data files None n = (Inr v, evs)"
  shows "cache_ok (c(n \<mapsto> (v, evs)))"
  unfolding cache_ok_def
proof (intro allI impI)
  fix k w ws
  assume a: "(c(n \<mapsto> (v, evs))) k = Some (w, ws)"
  show "\<exists>files. load_sample_data files None k = (Inr w, ws)"
  proof (cases "k = n")
    case True
    with a have "w = v" "ws = evs" by simp_all
    with True assms(2) show ?thesis by blast
  next
    case False
    with a have "c k = Some (w, ws)" by simp
    with assms(1) show ?thesis unfolding cache_ok_def by blast
  qed
qed

lemma cached_unbound:
  assumes "cache_ok c"
  shows "\<exists>e c'. load_sample_data_cached c files None n =
           ((Inr None, [StError (Error_loading_dataset e)]), c') \<and> cache_ok c'"
proof (cases "c n")
  case None
  obtain e where e: "load_sample_data files None n = (Inr None, [StError (Error_loading_dataset e)])"
    using load_sample_data_unbound by blast
  have "cache_ok (c(n \<mapsto> (None, [StError (Error_loading_dataset e)])))"
    using assms e by (rule cache_ok_update)
  moreover have "load_sample_data_cached c files None n =
      ((Inr None, [StError (Error_loading_dataset e)]),
       c(n \<mapsto> (None, [StError (Error_loading_dataset e)])))"
    using None e by (simp add: load_sample_data_cached_def)
  ultimately show ?thesis by blast
next
  case (Some a)
  obtain v evs where a: "a = (v, evs)" by (cases a)
  from Some a have "c n = Some (v, evs)" by simp
  from cache_ok_entry[OF assms this] obtain e where
    "v = None" "evs = [StError (Error_loading_dataset e)]" by blast
  with Some a have "load_sample_data_cached c files None n =
      ((Inr None, [StError (Error_loading_dataset e)]), c)"
    by (simp add: load_sample_data_cached_def)
  with assms show ?thesis by blast
qed

subsection \<open>The chunk loop\<close>

lemma full_loop_total:
  "full_loop it s = (r, s') \<Longrightarrow> total_rows s = sum_list (map nrows (chunks s))
     \<Longrightarrow> total_rows s' = sum_list (map nrows (chunks s'))"
  by (induction it s rule: full_loop.induct) (auto simp: Let_def split: if_splits)

lemma progress_values_append:
  "progress_values (xs @ ys) = progress_values xs @ progress_values ys"
  by (induction xs rule: progress_values.induct) auto

lemma progress_fraction_mono: "a \<le> b \<Longrightarrow> progress_fraction a \<le> progress_fraction b"
  by (simp add: progress_fraction_def min_def field_simps)

lemma below_step:
  assumes "below s"
  shows "below (s\<lparr>chunks := cs, total_rows := total_rows s + k,
     shown := shown s @ [Progress (progress_fraction (total_rows s + k)), StatusText j]\<rparr>)"
proof -
  have m: "progress_fraction (total_rows s) \<le> progress_fraction (total_rows s + k)"
    by (rule progress_fraction_mono) simp
  show ?thesis using assms m
    by (auto simp: below_def sorted_append progress_values_append intro: order_trans)
qed

lemma below_warning:
  "below s \<Longrightarrow> below (s\<lparr>shown := shown s @ [StWarning w]\<rparr>)"
  by (simp add: below_def progress_values_append)

lemma full_loop_below:
  "full_loop it s = (r, s') \<Longrightarrow> below s \<Longrightarrow> below s'"
proof (induction it s rule: full_loop.induct)
  case (3 chunk it s)
  let ?t = "total_rows s + nrows chunk"
  let ?s2 = "s\<lparr>chunks := chunks s @ [chunk], total_rows := ?t,
     shown := shown s @ [Progress (progress_fraction ?t), StatusText ?t]\<rparr>"
  have b: "below ?s2" using "3.prems"(2) by (rule below_step)
  show ?case
  proof (cases "?t \<ge> 500000")
    case True
    with "3.prems"(1) have "s' = ?s2\<lparr>shown := shown ?s2 @ [StWarning Limited_to_500000_rows]\<rparr>"
      by (simp add: Let_def)
    then show ?thesis using below_warning[OF b] by simp
  next
    case False
    with "3.prems"(1) have "full_loop it ?s2 = (r, s')" by (simp add: Let_def)
    with "3.IH" False b show ?thesis by (simp add: Let_def)
  qed
qed auto

lemma nrows_frame_of: "nrows (frame_of hdr ls) = length ls"
  by (simp add: frame_of_def)

lemma list_all_drop: "list_all P xs \<Longrightarrow> list_all P (drop n xs)"
  by (auto simp: list_all_iff dest: in_set_dropD)

lemma list_all_take: "list_all P xs \<Longrightarrow> list_all P (take n xs)"
  by (auto simp: list_all_iff dest: in_set_takeD)

lemma step_bound:
  assumes "50000 dvd (t::nat)" and "t < 500000"
  shows "t + 50000 \<le> 500000"
proof -
  from assms(1) obtain k where k: "t = 50000 * k" by (auto simp: dvd_def)
  with assms(2) have "k < 10" by simp
  then have "k + 1 \<le> 10" by simp
  then have "50000 * (k + 1) \<le> 50000 * (10::nat)" by (rule mult_le_mono2)
  with k show ?thesis by simp
qed

lemma chunk_reader_Nil: "chunk_reader hdr n [] = []"
  by (simp add: chunk_reader.simps)

lemma full_loop_chunk_step:
  assumes "ls \<noteq> []" and "list_all (well_formed hdr) (take 50000 ls)"
  shows "full_loop (chunk_reader hdr 50000 ls) s =
     (let t = total_rows s + length (take 50000 ls);
          s2 = s\<lparr>chunks := chunks s @ [frame_of hdr (take 50000 ls)], total_rows := t,
                 shown := shown s @ [Progress (progress_fraction t), StatusText t]\<rparr>
      in if t \<ge> 500000
         then (None, s2\<lparr>shown := shown s2 @ [StWarning Limited_to_500000_rows]\<rparr>)
         else full_loop (chunk_reader hdr 50000 (drop 50000 ls)) s2)"
  using assms by (simp add: chunk_reader.simps[of hdr 50000 ls] Let_def nrows_frame_of)

lemma full_loop_chunk_malformed:
  assumes "ls \<noteq> []" and "\<not> list_all (well_formed hdr) (take 50000 ls)"
  shows "full_loop (chunk_reader hdr 50000 ls) s = (Some ParserError, s)"
  using assms by (simp add: chunk_reader.simps[of hdr 50000 ls])

lemma full_loop_chunk_reader_cap:
  "full_loop (chunk_reader hdr 50000 ls) s = (r, s') \<Longrightarrow> 50000 dvd total_rows s \<Longrightarrow>
     total_rows s < 500000 \<Longrightarrow> total_rows s' \<le> 500000"
proof (induction hdr "50000::nat" ls arbitrary: s rule: chunk_reader.induct)
  case (1 hdr ls)
  show ?case
  proof (cases "ls = []")
    case True
    with "1.prems" show ?thesis by (simp add: chunk_reader_Nil)
  next
    case ne: False
    show ?thesis
    proof (cases "list_all (well_formed hdr) (take 50000 ls)")
      case False
      with ne "1.prems" show ?thesis by (simp add: full_loop_chunk_malformed)
    next
      case wf: True
      let ?k = "length (take 50000 ls)"
      let ?t = "total_rows s + ?k"
      let ?s2 = "s\<lparr>chunks := chunks s @ [frame_of hdr (take 50000 ls)], total_rows := ?t,
         shown := shown s @ [Progress (progress_fraction ?t), StatusText ?t]\<rparr>"
      have c: "\<not> (50000 = (0::nat) \<or> ls = [])" using ne by simp
      have tb: "?t \<le> 500000" using step_bound[OF "1.prems"(2,3)] by simp
      note unf = full_loop_chunk_step[OF ne wf, of s]
      show ?thesis
      proof (cases "?t \<ge> 500000")
        case True
        with unf "1.prems"(1) have "total_rows s' = ?t" by (auto simp: Let_def)
        with tb show ?thesis by simp
      next
        case small: False
        with unf "1.prems"(1) have run:
          "full_loop (chunk_reader hdr 50000 (drop 50000 ls)) ?s2 = (r, s')"
          by (simp add: Let_def)
        show ?thesis
        proof (cases "length ls \<ge> 50000")
          case True
          then have "?k = 50000" by simp
          then have "50000 dvd total_rows ?s2" using "1.prems"(2) by simp
          moreover have "total_rows ?s2 < 500000" using small by simp
          ultimately show ?thesis using "1.hyps"[OF c wf run] by simp
        next
          case False
          then have "drop 50000 ls = []" by simp
          with run have "s' = ?s2" by (simp add: chunk_reader_Nil)
          with tb show ?thesis by simp
        qed
      qed
    qed
  qed
qed

lemma full_loop_chunk_reader_wf:
  "list_all (well_formed hdr) ls \<Longrightarrow> 50000 dvd total_rows s \<Longrightarrow> total_rows s < 500000 \<Longrightarrow>
     \<exists>s'. full_loop (chunk_reader hdr 50000 ls) s = (None, s') \<and> ran s (length ls) s'"
proof (induction hdr "50000::nat" ls arbitrary: s rule: chunk_reader.induct)
  case (1 hdr ls)
  show ?case
  proof (cases "ls = []")
    case True
    with "1.prems" show ?thesis by (simp add: chunk_reader_Nil ran_def)
  next
    case ne: False
    have wf: "list_all (well_formed hdr) (take 50000 ls)"
      using "1.prems"(1) by (rule list_all_take)
    have c: "\<not> (50000 = (0::nat) \<or> ls = [])" using ne by simp
    let ?k = "length (take 50000 ls)"
    let ?t = "total_rows s + ?k"
    let ?s2 = "s\<lparr>chunks := chunks s @ [frame_of hdr (take 50000 ls)], total_rows := ?t,
       shown := shown s @ [Progress (progress_fraction ?t), StatusText ?t]\<rparr>"
    let ?s3 = "?s2\<lparr>shown := shown ?s2 @ [StWarning Limited_to_500000_rows]\<rparr>"
    have kpos: "0 < ?k" using ne by simp
    have tb: "?t \<le> 500000" using step_bound[OF "1.prems"(2,3)] by simp
    note unf = full_loop_chunk_step[OF ne wf, of s]
    show ?thesis
    proof (cases "?t \<ge> 500000")
      case True
      with tb have teq: "?t = 500000" by simp
      have "?k \<le> length ls" by simp
      with teq have big: "total_rows s + length ls \<ge> 500000" by linarith
      have "ran s (length ls) ?s3"
        using teq big by (simp add: ran_def limited_def progress_values_append)
      with unf True show ?thesis by (simp add: Let_def)
    next
      case small: False
      with unf have run: "full_loop (chunk_reader hdr 50000 ls) s =
          full_loop (chunk_reader hdr 50000 (drop 50000 ls)) ?s2" by (simp add: Let_def)
      show ?thesis
      proof (cases "length ls \<ge> 50000")
        case True
        then have keq: "?k = 50000" by simp
        then have d: "50000 dvd total_rows ?s2" using "1.prems"(2) by simp
        have l: "total_rows ?s2 < 500000" using small by simp
        have wfd: "list_all (well_formed hdr) (drop 50000 ls)"
          using "1.prems"(1) by (rule list_all_drop)
        from "1.hyps"[OF c wf wfd d l] obtain s' where
          s': "full_loop (chunk_reader hdr 50000 (drop 50000 ls)) ?s2 = (None, s')"
          and r: "ran ?s2 (length (drop 50000 ls)) s'" by blast
        have len: "?k + length (drop 50000 ls) = length ls" by simp
        have lim2: "limited (shown ?s2) = limited (shown s)" by (simp add: limited_def)
        have tot2: "total_rows ?s2 + length (drop 50000 ls) = total_rows s + length ls"
          using len by simp
        show ?thesis
        proof (cases "drop 50000 ls = []")
          case True
          with s' have "s' = ?s2" by (simp add: chunk_reader_Nil)
          moreover have "ran s (length ls) ?s2"
            using True small keq by (simp add: ran_def limited_def progress_values_append)
          ultimately show ?thesis using run s' by simp
        next
          case False
          then have "0 < length (drop 50000 ls)" by simp
          with r lim2 tot2 have "ran s (length ls) s'"
            unfolding ran_def by metis
          with run s' show ?thesis by simp
        qed
      next
        case False
        then have dr: "drop 50000 ls = []" and keq: "?k = length ls" by simp_all
        have "total_rows s + length ls < 500000" using small keq by simp
        then have "ran s (length ls) ?s2"
          using keq kpos by (simp add: ran_def limited_def progress_values_append)
        with run dr show ?thesis by (simp add: chunk_reader_Nil)
      qed
    qed
  qed
qed

subsection \<open>The body of the full load\<close>

lemma nrows_concat_frames: "nrows (concat_frames ds) = sum_list (map nrows ds)"
  by (simp add: concat_frames_def)

lemma below_start: "below start"
  by (simp add: below_def start_def progress_fraction_def)

lemma full_try_sorted: "sorted (progress_values (snd (full_try opened)))"
proof (cases opened)
  case (Inl e)
  then show ?thesis by (simp add: full_try_def start_def)
next
  case (Inr it)
  obtain r s where run: "full_loop it start = (r, s)" by (cases "full_loop it start")
  from full_loop_below[OF run below_start] have "sorted (progress_values (shown s))"
    by (simp add: below_def)
  with Inr run show ?thesis
    by (cases r) (simp_all add: full_try_def progress_values_append)
qed

lemma full_try_loaded:
  assumes "full_try (Inr it) = (Inr d, evs)"
  shows "\<exists>s. full_loop it start = (None, s) \<and> nrows d = total_rows s \<and>
           evs = shown s @ [ProgressCleared, StatusCleared]"
proof -
  obtain r s where run: "full_loop it start = (r, s)" by (cases "full_loop it start")
  have t: "total_rows s = sum_list (map nrows (chunks s))"
    using full_loop_total[OF run] by (simp add: start_def)
  from assms run have "r = None" by (cases r) (simp_all add: full_try_def split: if_splits)
  with assms run t show ?thesis
    by (auto simp: full_try_def nrows_concat_frames split: if_splits)
qed

lemma full_try_cap:
  assumes "full_try (read_csv_chunks files p 50000) = (Inr d, evs)"
  shows "nrows d \<le> 500000"
proof (cases "files p")
  case None
  with assms show ?thesis by (simp add: read_csv_chunks_def full_try_def)
next
  case (Some f)
  let ?it = "if lines f = [] then [Inr (frame_of (table_of f) [])]
             else chunk_reader (table_of f) 50000 (lines f)"
  from Some assms have "full_try (Inr ?it) = (Inr d, evs)" by (simp add: read_csv_chunks_def)
  from full_try_loaded[OF this] obtain s where
    run: "full_loop ?it start = (None, s)" and n: "nrows d = total_rows s" by blast
  show ?thesis
  proof (cases "lines f = []")
    case True
    with run have "total_rows s = 0" by (auto simp: start_def Let_def nrows_frame_of)
    with n show ?thesis by simp
  next
    case False
    with run have "full_loop (chunk_reader (table_of f) 50000 (lines f)) start = (None, s)" by simp
    from full_loop_chunk_reader_cap[OF this] n show ?thesis by (simp add: start_def)
  qed
qed

lemma full_try_wf:
  assumes "files p = Some f" and "list_all (well_formed (table_of f)) (lines f)"
  shows "\<exists>d evs. full_try (read_csv_chunks files p 50000) = (Inr d, evs) \<and>
           nrows d = min (length (lines f)) 500000 \<and>
           (limited evs \<longleftrightarrow> length (lines f) \<ge> 500000) \<and>
           progress_values evs \<noteq> [] \<and>
           last (progress_values evs) = progress_fraction (min (length (lines f)) 500000)"
proof (cases "lines f = []")
  case True
  with assms(1) show ?thesis
    by (simp add: read_csv_chunks_def full_try_def Let_def nrows_concat_frames nrows_frame_of
        limited_def start_def progress_values_append)
next
  case False
  have "50000 dvd total_rows start" "total_rows start < 500000" by (simp_all add: start_def)
  from full_loop_chunk_reader_wf[OF assms(2) this] obtain s where
    run: "full_loop (chunk_reader (table_of f) 50000 (lines f)) start = (None, s)"
    and r: "ran start (length (lines f)) s" by blast
  have t: "total_rows s = sum_list (map nrows (chunks s))"
    using full_loop_total[OF run] by (simp add: start_def)
  from False have pos: "0 < length (lines f)" by simp
  from r pos have c: "chunks s \<noteq> []" and pv: "progress_values (shown s) \<noteq> []"
    and lst: "last (progress_values (shown s)) = progress_fraction (total_rows s)"
    and tot: "total_rows s = min (length (lines f)) 500000"
    and lim: "limited (shown s) \<longleftrightarrow> length (lines f) \<ge> 500000"
    by (simp_all add: ran_def start_def limited_def)
  have ft: "full_try (read_csv_chunks files p 50000) =
      (Inr (concat_frames (chunks s)), shown s @ [ProgressCleared, StatusCleared])"
    using assms(1) False run c by (simp add: read_csv_chunks_def full_try_def)
  show ?thesis
    unfolding ft using t tot lim pv lst
    by (simp add: nrows_concat_frames limited_def progress_values_append)
qed

subsection \<open>The full load with its handler\<close>

lemma load_full_loaded:
  assumes "full_try (read_csv_chunks files ''metadata.csv/metadata.csv'' 50000) = (Inr d, evs)"
  shows "fst (load_dataset c files Full_dataset) = (Inr d, evs)"
  using assms by (simp add: load_dataset_def select_load_def full_dataset_def check_loaded_def)

lemma load_full_stopped:
  assumes "full_try (read_csv_chunks files ''metadata.csv/metadata.csv'' 50000) =
             (Inl StopException, evs)"
  shows "fst (load_dataset c files Full_dataset) = (Inl StopException, evs)"
  using assms
  by (simp add: load_dataset_def select_load_def full_dataset_def check_loaded_def
      is_Exception_def)

lemma load_full_fallback:
  assumes "cache_ok c"
    and "full_try (read_csv_chunks files ''metadata.csv/metadata.csv'' 50000) = (Inl e, evs)"
    and "is_Exception e"
  shows "\<exists>e'. fst (load_dataset c files Full_dataset) =
           (Inl StopException,
            evs @ [StError (Error_loading_full_dataset e), StInfo Falling_back_to_sample_data,
                   StError (Error_loading_dataset e'), StError Failed_to_load_dataset])"
proof -
  from cached_unbound[OF assms(1)] obtain e' c' where
    "load_sample_data_cached c files None 10000 =
       ((Inr None, [StError (Error_loading_dataset e')]), c')" by blast
  with assms(2,3) show ?thesis
    by (simp add: load_dataset_def select_load_def full_dataset_def check_loaded_def)
qed

lemma load_full_cases:
  assumes "cache_ok c"
  obtains (loaded) d evs where
      "full_try (read_csv_chunks files ''metadata.csv/metadata.csv'' 50000) = (Inr d, evs)"
      "fst (load_dataset c files Full_dataset) = (Inr d, evs)"
  | (stopped) evs where
      "full_try (read_csv_chunks files ''metadata.csv/metadata.csv'' 50000) =
         (Inl StopException, evs)"
      "fst (load_dataset c files Full_dataset) = (Inl StopException, evs)"
  | (fallback) e e' evs where
      "full_try (read_csv_chunks files ''metadata.csv/metadata.csv'' 50000) = (Inl e, evs)"
      "is_Exception e"
      "fst (load_dataset c files Full_dataset) =
         (Inl StopException,
            evs @ [StError (Error_loading_full_dataset e), StInfo Falling_back_to_sample_data,
                   StError (Error_loading_dataset e'), StError Failed_to_load_dataset])"
proof -
  obtain r evs where ft:
    "full_try (read_csv_chunks files ''metadata.csv/metadata.csv'' 50000) = (r, evs)"
    by (cases "full_try (read_csv_chunks files ''metadata.csv/metadata.csv'' 50000)")
  show thesis
  proof (cases r)
    case (Inr d)
    with ft load_full_loaded[of files d evs c] loaded show ?thesis by simp
  next
    case (Inl e)
    show ?thesis
    proof (cases "is_Exception e")
      case True
      with ft Inl load_full_fallback[OF assms, of files e evs] fallback show ?thesis by auto
    next
      case False
      then have "e = StopException" by (simp add: is_Exception_def)
      with ft Inl load_full_stopped[of files evs c] stopped show ?thesis by simp
    qed
  qed
qed

lemma full_load_wf:
  assumes "files ''metadata.csv/metadata.csv'' = Some f"
    and "list_all (well_formed (table_of f)) (lines f)"
  shows "\<exists>d evs. fst (load_dataset c files Full_dataset) = (Inr d, evs) \<and>
           nrows d = min (length (lines f)) 500000 \<and>
           (limited evs \<longleftrightarrow> length (lines f) \<ge> 500000) \<and>
           progress_values evs \<noteq> [] \<and>
           last (progress_values evs) = progress_fraction (min (length (lines f)) 500000)"
proof -
  from full_try_wf[where files = files and f = f, OF assms] obtain d evs where
    ft: "full_try (read_csv_chunks files ''metadata.csv/metadata.csv'' 50000) = (Inr d, evs)"
    and rest: "nrows d = min (length (lines f)) 500000"
      "limited evs \<longleftrightarrow> length (lines f) \<ge> 500000"
      "progress_values evs \<noteq> []"
      "last (progress_values evs) = progress_fraction (min (length (lines f)) 500000)"
    by blast
  from load_full_loaded[OF ft] rest show ?thesis by blast
qed

lemma progress_fraction_capped:
  "progress_fraction (min n 500000) = real (min n 500000) / 1000000"
  by (simp add: progress_fraction_def min_def)





lemma load_sample_data_cached_again:
  "fst (load_sample_data_cached (snd (load_sample_data_cached c files gdf n)) files gdf n) =
     fst (load_sample_data_cached c files gdf n)"
  by (auto simp: load_sample_data_cached_def split: option.splits prod.splits sum.splits)

lemma load_dataset_sample:
  "load_dataset c files Sample_10K =
     (check_loaded (fst (load_sample_data_cached c files None 10000)),
      snd (load_sample_data_cached c files None 10000))"
  by (simp add: load_dataset_def select_load_def case_prod_beta)

subsection \<open>Columns, the preparation and the filter\<close>

lemma get_column_set_column:
  "get_column (set_column d c vs) c' = (if c' = c then Inr vs else get_column d c')"
  by (simp add: get_column_def set_column_def update_conv')

lemma nrows_set_column: "nrows (set_column d c vs) = nrows d"
  by (simp add: set_column_def)

lemma get_column_in_columns:
  "c \<in> set (columns d) \<Longrightarrow> \<exists>vs. get_column d c = Inr vs"
  by (cases "map_of (cols d) c") (auto simp: get_column_def columns_def map_of_eq_None_iff)

lemma get_column_select_rows:
  "get_column (select_rows d keep) c =
     (case get_column d c of Inl e \<Rightarrow> Inl e | Inr vs \<Rightarrow> Inr (pick vs keep))"
proof -
  have "map_of (map (\<lambda>(c, vs). (c, pick vs keep)) (cols d)) c =
          map_option (\<lambda>vs. pick vs keep) (map_of (cols d) c)"
    by (simp add: map_of_map)
  then show ?thesis
    by (cases "map_of (cols d) c") (simp_all add: get_column_def select_rows_def)
qed

lemma pick_map: "pick xs (map P xs) = filter P xs"
  by (induction xs) (simp_all add: pick_def)

lemma nrows_select_rows_map: "nrows (select_rows d (map P xs)) = length (filter P xs)"
  by (simp add: select_rows_def filter_map)

lemma filter_years_keeps:
  assumes "filter_years h df yr = Inr (h', f, evs)"
  shows "take (length h) h' = h"
  using assms by (auto simp: filter_years_def split: if_splits sum.splits)

lemma prepare_undated:
  assumes "''publish_time'' \<notin> set (columns (h ! df))"
  shows "prepare parse h df =
     Inr (h[df := set_column (h ! df) ''year'' (replicate (nrows (h ! df)) (Num 2020))], df,
          [StWarning Publish_time_not_found])"
  using assms by (simp add: prepare_def set_column_scalar_def)

lemma prepare_dated:
  assumes "df < length h" and "''publish_time'' \<in> set (columns (h ! df))"
    and "get_column (h ! df) ''publish_time'' = Inr vs"
  shows "prepare parse h df =
     (let ts = map (to_datetime parse) vs;
          keep = map (\<lambda>v. \<not> isna v) ts;
          base = set_column (h ! df) ''publish_time'' ts
      in Inr (h[df := base] @
                [set_column (select_rows base keep) ''year'' (map dt_year (pick ts keep))],
              length h, []))"
proof -
  let ?ts = "map (to_datetime parse) vs"
  let ?keep = "map (\<lambda>v. \<not> isna v) ?ts"
  let ?base = "set_column (h ! df) ''publish_time'' ?ts"
  have d: "dropna ?base ''publish_time'' = Inr (select_rows ?base ?keep)"
    by (simp add: dropna_def get_column_set_column)
  have g: "get_column (select_rows ?base ?keep) ''publish_time'' = Inr (pick ?ts ?keep)"
    by (simp add: get_column_select_rows get_column_set_column)
  show ?thesis
    using assms d g by (simp add: prepare_def Let_def nth_append list_update_append)
qed

subsection \<open>The example files\<close>

lemma rows_file_wf: "list_all (well_formed (table_of (rows_file n))) (lines (rows_file n))"
  by (cases n) (simp_all add: rows_file_def table_of_def well_formed_def list_all_iff)

lemma rows_file_length: "length (lines (rows_file n)) = n"
  by (simp add: rows_file_def)

lemma leading_field_is_index:
  "read_csv_chunks (full_path_only leading_field) ''metadata.csv/metadata.csv'' 50000 =
     Inr [Inr \<lparr>nrows = 1, cols = [(''title'', [Str ''y''])]\<rparr>]"
  by (simp add: read_csv_chunks_def full_path_only_def leading_field_def chunk_reader.simps
      well_formed_def table_of_def frame_of_def field_def)

lemma full_path_only_full: "full_path_only f ''metadata.csv/metadata.csv'' = Some f"
  by (simp add: full_path_only_def)

lemma prepare_dated_frame:
  "prepare read_march_2020 [dated_frame] 0 =
     Inr ([\<lparr>nrows = 2,
             cols = [(''title'', [Str ''a'', Str ''b'']),
                     (''publish_time'', [Stamp 2020 3 1, NA])]\<rparr>,
           \<lparr>nrows = 1,
             cols = [(''title'', [Str ''a'']), (''publish_time'', [Stamp 2020 3 1]),
                     (''year'', [Num 2020])]\<rparr>],
          1, [])"
  by (simp add: prepare_def dated_frame_def columns_def get_column_def set_column_def
      to_datetime_def read_march_2020_def dropna_def select_rows_def pick_def isna_def
      dt_year_def Let_def)

lemma prepare_undated_frame:
  "prepare read_march_2020 [undated_frame] 0 =
     Inr ([\<lparr>nrows = 2,
             cols = [(''title'', [Str ''a'', Str ''b'']), (''year'', [Num 2020, Num 2020])]\<rparr>],
          0, [StWarning Publish_time_not_found])"
  by (simp add: prepare_def undated_frame_def columns_def set_column_scalar_def set_column_def
      numeral_2_eq_2)

section \<open>The claims\<close>

text \<open>
  C1. A frame that a full load produces has at most 500000 rows, whatever the source
  file holds: the loop stops adding chunks of at most 50000 rows as soon as the count
  reaches 500000, and the count before a further chunk is a multiple of 50000.
\<close>

theorem full_load_at_most_500000_rows:
  assumes "cache_ok c" and "fst (load_dataset c files Full_dataset) = (Inr d, evs)"
  shows "nrows d \<le> 500000"
  using assms(1)
proof (cases rule: load_full_cases[where files = files])
  case (loaded d' evs')
  with assms(2) have "d' = d" by simp
  with loaded(1) show ?thesis using full_try_cap by blast
next
  case (stopped evs')
  with assms(2) show ?thesis by simp
next
  case (fallback e e' evs')
  with assms(2) show ?thesis by simp
qed

theorem full_load_at_most_500000_rows_witness:
  "cache_ok Map.empty \<and>
   fst (load_dataset Map.empty (full_path_only (rows_file 3)) Full_dataset) =
     (Inr \<lparr>nrows = 3, cols = [(''title'', [Str ''x'', Str ''x'', Str ''x''])]\<rparr>,
      [Progress 0, Progress (progress_fraction 3), StatusText 3, ProgressCleared, StatusCleared]) \<and>
   nrows \<lparr>nrows = 3, cols = [(''title'', [Str ''x'', Str ''x'', Str ''x''])]\<rparr> \<le> 500000"
proof -
  have l: "fst (load_dataset Map.empty (full_path_only (rows_file 3)) Full_dataset) =
     (Inr \<lparr>nrows = 3, cols = [(''title'', [Str ''x'', Str ''x'', Str ''x''])]\<rparr>,
      [Progress 0, Progress (progress_fraction 3), StatusText 3, ProgressCleared, StatusCleared])"
    by (simp add: load_dataset_def select_load_def full_dataset_def check_loaded_def
        full_try_def start_def read_csv_chunks_def full_path_only_def rows_file_def
        chunk_reader.simps well_formed_def table_of_def frame_of_def field_def concat_frames_def
        columns_def column_or_NA_def Let_def numeral_3_eq_3)
  from full_load_at_most_500000_rows[OF cache_ok_empty l] l cache_ok_empty
  show ?thesis by simp
qed

text \<open>
  C2. A sample load does not return the head of the file. \<^verbatim>\<open>load_sample_data\<close> reads the
  file and drops the frame, and \<^verbatim>\<open>return df\<close> then reads a name that is unbound: the
  \<^verbatim>\<open>NameError\<close> is caught by the function's own handler, which returns \<^verbatim>\<open>None\<close>. On a
  file of three well-formed rows the read yields the three rows, and both sample modes
  end with \<^verbatim>\<open>Failed to load dataset\<close> and \<^verbatim>\<open>st.stop()\<close>.
\<close>

theorem sample_load_returns_no_frame:
  "read_csv_nrows (sample_path_only (rows_file 3)) ''metadata.csv'' 10000 =
     Inr \<lparr>nrows = 3, cols = [(''title'', [Str ''x'', Str ''x'', Str ''x''])]\<rparr> \<and>
   fst (load_dataset Map.empty (sample_path_only (rows_file 3)) Sample_10K) =
     (Inl StopException,
      [StError (Error_loading_dataset NameError), StError Failed_to_load_dataset]) \<and>
   fst (load_dataset Map.empty (sample_path_only (rows_file 3)) Sample_50K) =
     (Inl StopException,
      [StError (Error_loading_dataset NameError), StError Failed_to_load_dataset])"
  by (simp add: load_dataset_def select_load_def check_loaded_def load_sample_data_cached_def
      load_sample_data_def read_csv_nrows_def parse_lines_def sample_path_only_def rows_file_def
      well_formed_def table_of_def frame_of_def field_def is_Exception_def numeral_3_eq_3)

text \<open>
  C3, as the code has it. On a well-formed file of \<open>R \<le> 500000\<close> rows the full load
  succeeds and the frame has exactly \<open>R\<close> rows; the warning about the limit is shown
  exactly when \<open>R = 500000\<close>, and not when \<open>R < 500000\<close>.
\<close>

theorem full_load_within_limit:
  assumes "files ''metadata.csv/metadata.csv'' = Some f"
    and "list_all (well_formed (table_of f)) (lines f)"
    and "length (lines f) \<le> 500000"
  shows "\<exists>d evs. fst (load_dataset c files Full_dataset) = (Inr d, evs) \<and>
           nrows d = length (lines f) \<and>
           (StWarning Limited_to_500000_rows \<in> set evs \<longleftrightarrow> length (lines f) = 500000)"
proof -
  from full_load_wf[where files = files and f = f, OF assms(1,2)] obtain d evs where
    "fst (load_dataset c files Full_dataset) = (Inr d, evs)"
    "nrows d = min (length (lines f)) 500000"
    "limited evs \<longleftrightarrow> length (lines f) \<ge> 500000" by blast
  with assms(3) show ?thesis by (auto simp: limited_def)
qed

theorem full_load_within_limit_witness:
  "full_path_only (rows_file 3) ''metadata.csv/metadata.csv'' = Some (rows_file 3) \<and>
   list_all (well_formed (table_of (rows_file 3))) (lines (rows_file 3)) \<and>
   length (lines (rows_file 3)) \<le> 500000 \<and>
   (\<exists>d evs. fst (load_dataset Map.empty (full_path_only (rows_file 3)) Full_dataset) = (Inr d, evs) \<and>
      nrows d = 3 \<and> StWarning Limited_to_500000_rows \<notin> set evs)"
  using full_load_within_limit[of "full_path_only (rows_file 3)" "rows_file 3" Map.empty]
  by (simp add: full_path_only_full rows_file_wf rows_file_length)

text \<open>
  The claim C3 as it is written fails at \<open>R = 500000\<close>: the file is read to its end,
  nothing is cut, and the warning is shown all the same, since the loop tests
  \<^verbatim>\<open>total_rows >= 500000\<close> after the tenth chunk.
\<close>

theorem full_load_of_500000_rows_warns:
  "list_all (well_formed (table_of (rows_file 500000))) (lines (rows_file 500000)) \<and>
   length (lines (rows_file 500000)) \<le> 500000 \<and>
   StWarning Limited_to_500000_rows \<in>
     set (snd (fst (load_dataset Map.empty (full_path_only (rows_file 500000)) Full_dataset)))"
proof -
  from full_load_wf[where files = "full_path_only (rows_file 500000)" and f = "rows_file 500000"
      and c = Map.empty, OF full_path_only_full rows_file_wf]
  show ?thesis by (auto simp: rows_file_length rows_file_wf limited_def)
qed

text \<open>
  C4. When the full load raises, the handler calls \<^verbatim>\<open>load_sample_data(10000)\<close>, which
  reads the path \<^verbatim>\<open>metadata.csv\<close> and not the path \<^verbatim>\<open>metadata.csv/metadata.csv\<close> of the
  full load. Here the source file of the full load exists and has a line with too many
  fields; the retry fails with \<^verbatim>\<open>OSError\<close>, on another path.
\<close>

theorem fallback_reads_another_path:
  "full_path_only too_many_fields ''metadata.csv/metadata.csv'' = Some too_many_fields \<and>
   full_path_only too_many_fields ''metadata.csv'' = None \<and>
   fst (load_dataset Map.empty (full_path_only too_many_fields) Full_dataset) =
     (Inl StopException,
      [Progress 0, StError (Error_loading_full_dataset ParserError),
       StInfo Falling_back_to_sample_data,
       StError (Error_loading_dataset OSError),
       StError Failed_to_load_dataset])"
  by (simp add: load_dataset_def select_load_def full_dataset_def check_loaded_def
      full_try_def start_def read_csv_chunks_def full_path_only_def too_many_fields_def
      chunk_reader.simps well_formed_def table_of_def load_sample_data_cached_def load_sample_data_def
      read_csv_nrows_def is_Exception_def)

text \<open>
  C5, as the code has it. The progress values of a full load are in non-decreasing
  order, and on a well-formed file of \<open>R\<close> rows the last one is
  \<open>min R 500000 / 1000000\<close>: \<open>R / 1000000\<close> when the file ends below the limit, and
  \<open>1 / 2\<close> when the limit is reached.
\<close>

theorem full_load_progress:
  assumes "cache_ok c"
  shows "sorted (progress_values (snd (fst (load_dataset c files Full_dataset)))) \<and>
         (\<forall>f. files ''metadata.csv/metadata.csv'' = Some f \<longrightarrow>
              list_all (well_formed (table_of f)) (lines f) \<longrightarrow>
              last (progress_values (snd (fst (load_dataset c files Full_dataset)))) =
                real (min (length (lines f)) 500000) / 1000000)"
proof
  show "sorted (progress_values (snd (fst (load_dataset c files Full_dataset))))"
    using assms
  proof (cases rule: load_full_cases[where files = files])
    case (loaded d evs)
    with full_try_sorted[of "read_csv_chunks files ''metadata.csv/metadata.csv'' 50000"]
    show ?thesis by simp
  next
    case (stopped evs)
    with full_try_sorted[of "read_csv_chunks files ''metadata.csv/metadata.csv'' 50000"]
    show ?thesis by simp
  next
    case (fallback e e' evs)
    with full_try_sorted[of "read_csv_chunks files ''metadata.csv/metadata.csv'' 50000"]
    show ?thesis by (simp add: progress_values_append)
  qed
next
  show "\<forall>f. files ''metadata.csv/metadata.csv'' = Some f \<longrightarrow>
              list_all (well_formed (table_of f)) (lines f) \<longrightarrow>
              last (progress_values (snd (fst (load_dataset c files Full_dataset)))) =
                real (min (length (lines f)) 500000) / 1000000"
  proof (intro allI impI)
    fix f
    assume "files ''metadata.csv/metadata.csv'' = Some f"
      and "list_all (well_formed (table_of f)) (lines f)"
    from full_load_wf[where files = files and f = f and c = c, OF this] show
      "last (progress_values (snd (fst (load_dataset c files Full_dataset)))) =
         real (min (length (lines f)) 500000) / 1000000"
      by (auto simp: progress_fraction_capped)
  qed
qed

theorem full_load_progress_witness:
  "cache_ok Map.empty \<and>
   full_path_only (rows_file 3) ''metadata.csv/metadata.csv'' = Some (rows_file 3) \<and>
   list_all (well_formed (table_of (rows_file 3))) (lines (rows_file 3)) \<and>
   sorted (progress_values
     (snd (fst (load_dataset Map.empty (full_path_only (rows_file 3)) Full_dataset)))) \<and>
   last (progress_values
     (snd (fst (load_dataset Map.empty (full_path_only (rows_file 3)) Full_dataset)))) =
     3 / 1000000"
  using full_load_progress[OF cache_ok_empty, of "full_path_only (rows_file 3)"]
  by (simp add: full_path_only_full rows_file_wf rows_file_length cache_ok_empty)

text \<open>
  The claim C5 as it is written fails where the limit is reached: on a file of 600000
  rows the loop stops at 500000 rows with the warning, and the last progress value is
  \<open>500000 / 1000000\<close>, not \<open>1\<close>.
\<close>

theorem capped_load_ends_at_half:
  "StWarning Limited_to_500000_rows \<in>
     set (snd (fst (load_dataset Map.empty (full_path_only (rows_file 600000)) Full_dataset))) \<and>
   last (progress_values
     (snd (fst (load_dataset Map.empty (full_path_only (rows_file 600000)) Full_dataset)))) = 1 / 2 \<and>
   last (progress_values
     (snd (fst (load_dataset Map.empty (full_path_only (rows_file 600000)) Full_dataset)))) \<noteq> 1"
proof -
  from full_load_wf[where files = "full_path_only (rows_file 600000)" and f = "rows_file 600000"
      and c = Map.empty, OF full_path_only_full rows_file_wf]
  show ?thesis by (auto simp: rows_file_length limited_def progress_fraction_def)
qed



text \<open>
  C7, as the code has it. The preparation drops no row of the frame that \<^verbatim>\<open>df\<close> refers
  to at its start, changes none of its columns but \<^verbatim>\<open>publish_time\<close> and \<^verbatim>\<open>year\<close>, and
  changes no other frame. Where the frame has no \<^verbatim>\<open>publish_time\<close> the column \<^verbatim>\<open>year\<close> is
  written into this very frame. Where it has one, the column is overwritten in this
  frame by the coerced dates, and the rows with a date are copied to a new frame,
  which gets the column \<^verbatim>\<open>year\<close> and becomes \<^verbatim>\<open>df\<close>. The filter on the year changes no
  frame that exists.
\<close>

theorem preparation_keeps_rows_of_base:
  assumes "df < length h" and "prepare parse h df = Inr (h', df', evs)"
  shows "length h \<le> length h' \<and>
         (\<forall>a < length h. a \<noteq> df \<longrightarrow> h' ! a = h ! a) \<and>
         nrows (h' ! df) = nrows (h ! df) \<and>
         (\<forall>c. c \<noteq> ''publish_time'' \<and> c \<noteq> ''year'' \<longrightarrow>
              get_column (h' ! df) c = get_column (h ! df) c) \<and>
         (''publish_time'' \<notin> set (columns (h ! df)) \<longrightarrow>
            df' = df \<and> length h' = length h \<and>
            get_column (h' ! df) ''year'' = Inr (replicate (nrows (h ! df)) (Num 2020))) \<and>
         (\<forall>vs. get_column (h ! df) ''publish_time'' = Inr vs \<longrightarrow>
            df' = length h \<and> length h' = Suc (length h) \<and>
            get_column (h' ! df) ''publish_time'' = Inr (map (to_datetime parse) vs) \<and>
            get_column (h' ! df) ''year'' = get_column (h ! df) ''year'' \<and>
            nrows (h' ! df') = length (filter (\<lambda>v. \<not> isna (to_datetime parse v)) vs) \<and>
            get_column (h' ! df') ''publish_time'' =
              Inr (filter (\<lambda>v. \<not> isna v) (map (to_datetime parse) vs)) \<and>
            get_column (h' ! df') ''year'' =
              Inr (map dt_year (filter (\<lambda>v. \<not> isna v) (map (to_datetime parse) vs))) \<and>
            (\<forall>c. c \<noteq> ''publish_time'' \<and> c \<noteq> ''year'' \<longrightarrow>
               get_column (h' ! df') c =
                 (case get_column (h ! df) c of
                    Inl e \<Rightarrow> Inl e
                  | Inr xs \<Rightarrow> Inr (pick xs (map (\<lambda>v. \<not> isna (to_datetime parse v)) vs))))) \<and>
         (\<forall>yr h'' f evs'. filter_years h' df' yr = Inr (h'', f, evs') \<longrightarrow>
            take (length h') h'' = h')"
proof (cases "''publish_time'' \<in> set (columns (h ! df))")
  case False
  then have nk: "\<And>vs. get_column (h ! df) ''publish_time'' \<noteq> Inr vs"
    by (auto simp: get_column_def columns_def split: option.splits dest: map_of_SomeD
        intro: rev_image_eqI)
  from False assms(2) have
    h': "h' = h[df := set_column (h ! df) ''year'' (replicate (nrows (h ! df)) (Num 2020))]"
    and df': "df' = df" by (auto simp: prepare_undated)
  show ?thesis
  proof (intro conjI)
    show "\<forall>yr h'' f evs'. filter_years h' df' yr = Inr (h'', f, evs') \<longrightarrow>
            take (length h') h'' = h'"
      using filter_years_keeps by blast
  qed (use assms(1) False nk in \<open>auto simp: h' df' get_column_set_column nrows_set_column\<close>)
next
  case True
  from get_column_in_columns[OF True] obtain vs where
    vs: "get_column (h ! df) ''publish_time'' = Inr vs" by blast
  let ?ts = "map (to_datetime parse) vs"
  let ?keep = "map (\<lambda>v. \<not> isna v) ?ts"
  let ?base = "set_column (h ! df) ''publish_time'' ?ts"
  let ?new = "set_column (select_rows ?base ?keep) ''year'' (map dt_year (pick ?ts ?keep))"
  from prepare_dated[OF assms(1) True vs, of parse] assms(2) have
    h': "h' = h[df := ?base] @ [?new]" and df': "df' = length h"
    by (auto simp: Let_def)
  have n: "nrows ?new = length (filter (\<lambda>v. \<not> isna (to_datetime parse v)) vs)"
    by (simp add: nrows_set_column nrows_select_rows_map filter_map comp_def)
  have k: "?keep = map (\<lambda>v. \<not> isna (to_datetime parse v)) vs" by simp
  have gp: "get_column ?new ''publish_time'' = Inr (filter (\<lambda>v. \<not> isna v) ?ts)"
    by (simp add: get_column_set_column get_column_select_rows pick_map del: map_map)
  have gy: "get_column ?new ''year'' = Inr (map dt_year (filter (\<lambda>v. \<not> isna v) ?ts))"
    by (simp add: get_column_set_column pick_map del: map_map)
  have go: "get_column ?new c =
      (case get_column (h ! df) c of
         Inl e \<Rightarrow> Inl e
       | Inr xs \<Rightarrow> Inr (pick xs (map (\<lambda>v. \<not> isna (to_datetime parse v)) vs)))"
    if "c \<noteq> ''publish_time''" "c \<noteq> ''year''" for c
    using that by (simp add: get_column_set_column get_column_select_rows comp_def)
  show ?thesis
  proof (intro conjI)
    show "\<forall>yr h'' f evs'. filter_years h' df' yr = Inr (h'', f, evs') \<longrightarrow>
            take (length h') h'' = h'"
      using filter_years_keeps by blast
  next
    show "\<forall>vs. get_column (h ! df) ''publish_time'' = Inr vs \<longrightarrow>
            df' = length h \<and> length h' = Suc (length h) \<and>
            get_column (h' ! df) ''publish_time'' = Inr (map (to_datetime parse) vs) \<and>
            get_column (h' ! df) ''year'' = get_column (h ! df) ''year'' \<and>
            nrows (h' ! df') = length (filter (\<lambda>v. \<not> isna (to_datetime parse v)) vs) \<and>
            get_column (h' ! df') ''publish_time'' =
              Inr (filter (\<lambda>v. \<not> isna v) (map (to_datetime parse) vs)) \<and>
            get_column (h' ! df') ''year'' =
              Inr (map dt_year (filter (\<lambda>v. \<not> isna v) (map (to_datetime parse) vs))) \<and>
            (\<forall>c. c \<noteq> ''publish_time'' \<and> c \<noteq> ''year'' \<longrightarrow>
               get_column (h' ! df') c =
                 (case get_column (h ! df) c of
                    Inl e \<Rightarrow> Inl e
                  | Inr xs \<Rightarrow> Inr (pick xs (map (\<lambda>v. \<not> isna (to_datetime parse v)) vs))))"
    proof (intro allI impI)
      fix ws assume "get_column (h ! df) ''publish_time'' = Inr ws"
      with vs have ws: "ws = vs" by simp
      have new: "h' ! df' = ?new" by (simp add: h' df' nth_append)
      have base: "h' ! df = ?base" using assms(1) by (simp add: h' nth_append)
      show "df' = length h \<and> length h' = Suc (length h) \<and>
            get_column (h' ! df) ''publish_time'' = Inr (map (to_datetime parse) ws) \<and>
            get_column (h' ! df) ''year'' = get_column (h ! df) ''year'' \<and>
            nrows (h' ! df') = length (filter (\<lambda>v. \<not> isna (to_datetime parse v)) ws) \<and>
            get_column (h' ! df') ''publish_time'' =
              Inr (filter (\<lambda>v. \<not> isna v) (map (to_datetime parse) ws)) \<and>
            get_column (h' ! df') ''year'' =
              Inr (map dt_year (filter (\<lambda>v. \<not> isna v) (map (to_datetime parse) ws))) \<and>
            (\<forall>c. c \<noteq> ''publish_time'' \<and> c \<noteq> ''year'' \<longrightarrow>
               get_column (h' ! df') c =
                 (case get_column (h ! df) c of
                    Inl e \<Rightarrow> Inl e
                  | Inr xs \<Rightarrow> Inr (pick xs (map (\<lambda>v. \<not> isna (to_datetime parse v)) ws))))"
        unfolding ws new base using n gp gy go
        by (simp add: df' h' get_column_set_column)
    qed
  qed (use assms(1) True vs in
      \<open>auto simp: h' df' get_column_set_column nrows_set_column nth_append\<close>)
qed

theorem preparation_keeps_rows_of_base_witness:
  "(0::nat) < length [dated_frame] \<and>
   prepare read_march_2020 [dated_frame] 0 =
     Inr ([\<lparr>nrows = 2,
             cols = [(''title'', [Str ''a'', Str ''b'']),
                     (''publish_time'', [Stamp 2020 3 1, NA])]\<rparr>,
           \<lparr>nrows = 1,
             cols = [(''title'', [Str ''a'']), (''publish_time'', [Stamp 2020 3 1]),
                     (''year'', [Num 2020])]\<rparr>],
          1, []) \<and>
   nrows \<lparr>nrows = 2,
           cols = [(''title'', [Str ''a'', Str ''b'']),
                   (''publish_time'', [Stamp 2020 3 1, NA])]\<rparr> = nrows dated_frame \<and>
   get_column \<lparr>nrows = 2,
           cols = [(''title'', [Str ''a'', Str ''b'']),
                   (''publish_time'', [Stamp 2020 3 1, NA])]\<rparr> ''title'' =
     get_column dated_frame ''title'' \<and>
   get_column \<lparr>nrows = 1,
           cols = [(''title'', [Str ''a'']), (''publish_time'', [Stamp 2020 3 1]),
                   (''year'', [Num 2020])]\<rparr> ''year'' = Inr [Num 2020]"
proof -
  have l: "(0::nat) < length [dated_frame]" by simp
  have y: "get_column \<lparr>nrows = 1,
           cols = [(''title'', [Str ''a'']), (''publish_time'', [Stamp 2020 3 1]),
                   (''year'', [Num 2020])]\<rparr> ''year'' = Inr [Num 2020]"
    by (simp add: get_column_def)
  from preparation_keeps_rows_of_base[OF l prepare_dated_frame] prepare_dated_frame y
  show ?thesis by simp
qed

text \<open>
  The claim C7 as it is written fails: the frame that the load returned does not stay
  as it was. With a \<^verbatim>\<open>publish_time\<close> column, its value \<^verbatim>\<open>unknown\<close> is replaced by a missing
  date in the frame itself; without one, the frame itself gets the column \<^verbatim>\<open>year\<close>.
\<close>

theorem preparation_changes_base:
  "prepare read_march_2020 [dated_frame] 0 =
     Inr ([\<lparr>nrows = 2,
             cols = [(''title'', [Str ''a'', Str ''b'']),
                     (''publish_time'', [Stamp 2020 3 1, NA])]\<rparr>,
           \<lparr>nrows = 1,
             cols = [(''title'', [Str ''a'']), (''publish_time'', [Stamp 2020 3 1]),
                     (''year'', [Num 2020])]\<rparr>],
          1, []) \<and>
   \<lparr>nrows = 2,
     cols = [(''title'', [Str ''a'', Str ''b'']),
             (''publish_time'', [Stamp 2020 3 1, NA])]\<rparr> \<noteq> dated_frame \<and>
   prepare read_march_2020 [undated_frame] 0 =
     Inr ([\<lparr>nrows = 2,
             cols = [(''title'', [Str ''a'', Str ''b'']), (''year'', [Num 2020, Num 2020])]\<rparr>],
          0, [StWarning Publish_time_not_found]) \<and>
   \<lparr>nrows = 2,
     cols = [(''title'', [Str ''a'', Str ''b'']), (''year'', [Num 2020, Num 2020])]\<rparr> \<noteq>
     undated_frame"
  using prepare_dated_frame prepare_undated_frame
  by (simp add: dated_frame_def undated_frame_def)

text \<open>
  C8. On a frame without a \<^verbatim>\<open>publish_time\<close> column the preparation raises nothing: it
  shows the warning, keeps \<^verbatim>\<open>df\<close>, and gives every row the year 2020.
\<close>

theorem missing_publish_time_defaults_to_2020:
  assumes "df < length h" and "''publish_time'' \<notin> set (columns (h ! df))"
  shows "\<exists>h'. prepare parse h df = Inr (h', df, [StWarning Publish_time_not_found]) \<and>
           nrows (h' ! df) = nrows (h ! df) \<and>
           get_column (h' ! df) ''year'' = Inr (replicate (nrows (h ! df)) (Num 2020))"
  using assms
  by (simp add: prepare_undated get_column_set_column nrows_set_column)

theorem missing_publish_time_defaults_to_2020_witness:
  "(0::nat) < length [undated_frame] \<and>
   ''publish_time'' \<notin> set (columns ([undated_frame] ! 0)) \<and>
   (\<exists>h'. prepare read_march_2020 [undated_frame] 0 =
            Inr (h', 0, [StWarning Publish_time_not_found]) \<and>
          nrows (h' ! 0) = 2 \<and>
          get_column (h' ! 0) ''year'' = Inr [Num 2020, Num 2020])"
  using missing_publish_time_defaults_to_2020[of 0 "[undated_frame]" read_march_2020]
  by (simp add: undated_frame_def columns_def numeral_2_eq_2)

text \<open>
  C9. Two calls of the sample load of 10000 rows in a row, on the same file of three
  well-formed rows, yield no frame at all: the first call returns \<^verbatim>\<open>None\<close> after the
  \<^verbatim>\<open>NameError\<close> of \<^verbatim>\<open>return df\<close>, the second is answered with the same \<^verbatim>\<open>None\<close> from the
  cache, and the script stops with \<^verbatim>\<open>Failed to load dataset\<close> both times.
\<close>

theorem sample_load_twice_yields_no_frame:
  "fst (load_sample_data_cached Map.empty (sample_path_only (rows_file 3)) None 10000) =
     (Inr None, [StError (Error_loading_dataset NameError)]) \<and>
   fst (load_sample_data_cached
          (snd (load_sample_data_cached Map.empty (sample_path_only (rows_file 3)) None 10000))
          (sample_path_only (rows_file 3)) None 10000) =
     (Inr None, [StError (Error_loading_dataset NameError)]) \<and>
   fst (load_dataset
          (snd (load_dataset Map.empty (sample_path_only (rows_file 3)) Sample_10K))
          (sample_path_only (rows_file 3)) Sample_10K) =
     (Inl StopException,
      [StError (Error_loading_dataset NameError), StError Failed_to_load_dataset])"
proof -
  have b: "load_sample_data (sample_path_only (rows_file 3)) None 10000 =
      (Inr None, [StError (Error_loading_dataset NameError)])"
    by (simp add: load_sample_data_def read_csv_nrows_def parse_lines_def sample_path_only_def
        rows_file_def well_formed_def table_of_def is_Exception_def numeral_3_eq_3)
  show ?thesis
    by (simp add: load_dataset_sample load_sample_data_cached_def b check_loaded_def)
qed

text \<open>
  C10, as the code has it. When the reader of the full load yields no chunk and does
  not raise, the script shows \<^verbatim>\<open>No data loaded\<close> and stops: \<^verbatim>\<open>st.stop()\<close> is not an
  \<^verbatim>\<open>Exception\<close>, so the handler does not run, nothing is read for a fallback and the
  cache is as before. But the reader of no file yields no chunk: on a file with a
  header and no data line it yields one chunk with no rows, and the full load returns
  a frame with no rows, without that message and without a fallback.
\<close>

theorem no_chunks_stops_but_no_file_gives_none:
  "full_dataset (Inr []) c files =
     ((Inl StopException, [Progress 0, StError No_data_loaded]), c) \<and>
   check_loaded (fst (full_dataset (Inr []) c files)) =
     (Inl StopException, [Progress 0, StError No_data_loaded]) \<and>
   read_csv_chunks files ''metadata.csv/metadata.csv'' 50000 \<noteq> Inr [] \<and>
   (\<forall>f. files ''metadata.csv/metadata.csv'' = Some f \<longrightarrow> lines f = [] \<longrightarrow>
      load_dataset c files Full_dataset =
        ((Inr (concat_frames [frame_of (table_of f) []]),
          [Progress 0, Progress 0, StatusText 0, ProgressCleared, StatusCleared]), c) \<and>
      nrows (concat_frames [frame_of (table_of f) []]) = 0)"
proof (intro conjI allI impI)
  show "full_dataset (Inr []) c files =
      ((Inl StopException, [Progress 0, StError No_data_loaded]), c)"
    by (simp add: full_dataset_def full_try_def start_def is_Exception_def)
  then show "check_loaded (fst (full_dataset (Inr []) c files)) =
      (Inl StopException, [Progress 0, StError No_data_loaded])"
    by (simp add: check_loaded_def)
  show "read_csv_chunks files ''metadata.csv/metadata.csv'' 50000 \<noteq> Inr []"
    by (simp add: read_csv_chunks_def chunk_reader.simps split: option.splits)
next
  fix f
  assume f: "files ''metadata.csv/metadata.csv'' = Some f" and e: "lines f = []"
  show "load_dataset c files Full_dataset =
        ((Inr (concat_frames [frame_of (table_of f) []]),
          [Progress 0, Progress 0, StatusText 0, ProgressCleared, StatusCleared]), c)"
    using f e
    by (simp add: load_dataset_def select_load_def full_dataset_def check_loaded_def
        full_try_def start_def read_csv_chunks_def nrows_frame_of progress_fraction_def)
  show "nrows (concat_frames [frame_of (table_of f) []]) = 0"
    by (simp add: nrows_concat_frames nrows_frame_of)
qed

theorem no_chunks_stops_but_no_file_gives_none_witness:
  "full_path_only header_only ''metadata.csv/metadata.csv'' = Some header_only \<and>
   lines header_only = [] \<and>
   load_dataset Map.empty (full_path_only header_only) Full_dataset =
     ((Inr \<lparr>nrows = 0, cols = [(''title'', []), (''journal'', [])]\<rparr>,
       [Progress 0, Progress 0, StatusText 0, ProgressCleared, StatusCleared]), Map.empty)"
proof -
  have c: "concat_frames [frame_of (table_of header_only) []] =
      \<lparr>nrows = 0, cols = [(''title'', []), (''journal'', [])]\<rparr>"
    by (simp add: concat_frames_def frame_of_def table_of_def header_only_def columns_def
        column_or_NA_def upt_rec)
  from no_chunks_stops_but_no_file_gives_none[of Map.empty "full_path_only header_only"] c
  show ?thesis by (simp add: full_path_only_full header_only_def)
qed

text \<open>
  The claim C10 as it is written fails on its own example: a CSV file that has only
  its header is read without an exception, and the run is not ended. The load
  returns a frame with no rows and shows neither \<^verbatim>\<open>No data loaded\<close> nor a fallback.
\<close>

theorem header_only_file_loads_no_rows:
  "lines (rows_file 0) = [] \<and>
   fst (load_dataset Map.empty (full_path_only (rows_file 0)) Full_dataset) =
     (Inr \<lparr>nrows = 0, cols = [(''title'', [])]\<rparr>,
      [Progress 0, Progress 0, StatusText 0, ProgressCleared, StatusCleared])"
  by (simp add: load_dataset_def select_load_def full_dataset_def check_loaded_def
      full_try_def start_def read_csv_chunks_def full_path_only_def rows_file_def
      frame_of_def table_of_def concat_frames_def columns_def column_or_NA_def
      progress_fraction_def)

end
